theory Spec2Isabelle
  imports Main "HOL-Library.AList"
begin

section \<open>The contact manager of \<^verbatim>\<open>main.py\<close>\<close>

text \<open>
  A shallow embedding of the address book: the field classes \<^verbatim>\<open>Phone\<close> and
  \<^verbatim>\<open>Birthday\<close> with their validating setters, the class \<^verbatim>\<open>Record\<close>, the
  dictionary-backed \<^verbatim>\<open>AddressBook\<close> with its search and its pickle persistence, and the
  branches of the command loop that the properties below reach.

  Conventions. A Python value that may be \<^verbatim>\<open>None\<close> is an \<^typ>\<open>'a option\<close>. A raised
  exception is the left injection of a sum; the exception classes the program can meet
  are the constructors of \<open>error\<close>. The texts that the program prints and the names of
  files are HOL strings.
\<close>

subsection \<open>Exceptions\<close>

datatype error = ValueError | KeyError | IndexError | AttributeError | UnpicklingError

subsection \<open>Strings\<close>

text \<open>
  A Python \<^verbatim>\<open>str\<close> is a sequence of Unicode code points: a list of integers.
  \<open>lit\<close> writes such a string from its ASCII text.
\<close>

type_synonym str = "int list"

definition code :: "char \<Rightarrow> int" where
  "code c = of_char c"

definition lit :: "string \<Rightarrow> str" where
  "lit cs = map code cs"

text \<open>The members of a bracketed character class such as \<^verbatim>\<open>[1-9]\<close>.\<close>

definition one_of :: "string \<Rightarrow> int \<Rightarrow> bool" where
  "one_of cs c = (c \<in> set (lit cs))"

subsection \<open>The regular expression of \<^verbatim>\<open>Phone\<close>\<close>

text \<open>
  On a \<^verbatim>\<open>str\<close> pattern the class \<^verbatim>\<open>\d\<close> matches every Unicode decimal digit
  (category Nd), not the ten ASCII digits alone. The ranges are those of Unicode 14.0,
  the character database of Python 3.11; each range starts at a digit zero, so that the
  value of a digit is its offset in the range modulo 10.
\<close>

definition decimal_digit_ranges :: "(int \<times> int) list" where
  "decimal_digit_ranges =
     [(48, 57), (1632, 1641), (1776, 1785), (1984, 1993), (2406, 2415), (2534, 2543),
      (2662, 2671), (2790, 2799), (2918, 2927), (3046, 3055), (3174, 3183), (3302, 3311),
      (3430, 3439), (3558, 3567), (3664, 3673), (3792, 3801), (3872, 3881), (4160, 4169),
      (4240, 4249), (6112, 6121), (6160, 6169), (6470, 6479), (6608, 6617), (6784, 6793),
      (6800, 6809), (6992, 7001), (7088, 7097), (7232, 7241), (7248, 7257), (42528, 42537),
      (43216, 43225), (43264, 43273), (43472, 43481), (43504, 43513), (43600, 43609),
      (44016, 44025), (65296, 65305), (66720, 66729), (68912, 68921), (69734, 69743),
      (69872, 69881), (69942, 69951), (70096, 70105), (70384, 70393), (70736, 70745),
      (70864, 70873), (71248, 71257), (71360, 71369), (71472, 71481), (71904, 71913),
      (72016, 72025), (72784, 72793), (73040, 73049), (73120, 73129), (92768, 92777),
      (92864, 92873), (93008, 93017), (120782, 120831), (123200, 123209), (123632, 123641),
      (125264, 125273), (130032, 130041)]"

definition is_digit :: "int \<Rightarrow> bool" where
  "is_digit c = list_ex (\<lambda>(lo, hi). lo \<le> c \<and> c \<le> hi) decimal_digit_ranges"

text \<open>
  \<^verbatim>\<open>\+?\<close>: one optional plus sign. The quantifier is greedy, and giving the plus back
  never helps, since the next item of the pattern is the literal \<^verbatim>\<open>3\<close>.
\<close>

fun optional_plus :: "str \<Rightarrow> str" where
  "optional_plus [] = []"
| "optional_plus (c # cs) = (if c = code CHR ''+'' then cs else c # cs)"

text \<open>
  \<^verbatim>\<open>$\<close> without \<^verbatim>\<open>re.MULTILINE\<close>: the end of the string, or the position just before
  a newline that is the last character of the string.
\<close>

definition at_dollar :: "str \<Rightarrow> bool" where
  "at_dollar rest = (rest = [] \<or> rest = [10])"

text \<open>\<^verbatim>\<open>re.match(r'^\+?380\d{9}$', value)\<close>, as a truth value.\<close>

definition phone_re_match :: "str \<Rightarrow> bool" where
  "phone_re_match v =
     (let r = optional_plus v in
        take 3 r = lit ''380'' \<and>
        length (take 9 (drop 3 r)) = 9 \<and>
        list_all is_digit (take 9 (drop 3 r)) \<and>
        at_dollar (drop 12 r))"

subsection \<open>Fields\<close>

text \<open>
  A \<^verbatim>\<open>Phone\<close> object holds its attribute \<^verbatim>\<open>_value\<close>, a string or \<^verbatim>\<open>None\<close>: the
  setter lets \<^verbatim>\<open>None\<close> through and stores every value it does not reject.
\<close>

datatype Phone = Phone (phone_value: "str option")

text \<open>\<^verbatim>\<open>Phone.__init__\<close>, which is the setter of \<^verbatim>\<open>Phone.value\<close> (lines 35 to 40).\<close>

definition Phone_init :: "str option \<Rightarrow> error + Phone" where
  "Phone_init v =
     (case v of
        None \<Rightarrow> Inr (Phone None)
      | Some s \<Rightarrow> if \<not> phone_re_match s then Inl ValueError else Inr (Phone (Some s)))"

subsection \<open>Formats, in the words of the specification\<close>




text \<open>
  An optional plus sign and \<^verbatim>\<open>380\<close>, followed by exactly nine decimal digits of any
  script: the strings outside this form, a final newline apart, are the ones the pattern
  refuses.
\<close>

definition opt_plus380_nine_decimals :: "str \<Rightarrow> bool" where
  "opt_plus380_nine_decimals s =
     (let r = optional_plus s in
        take 3 r = lit ''380'' \<and> length r = 12 \<and> list_all is_digit (drop 3 r))"

text \<open>A string without its final newline, when it has one.\<close>

definition chomp :: "str \<Rightarrow> str" where
  "chomp s = (if s \<noteq> [] \<and> last s = 10 then butlast s else s)"

subsection \<open>Calendar dates\<close>

text \<open>
  The class \<^verbatim>\<open>datetime.date\<close> of the standard library, as far as the program uses it:
  construction with its range checks, comparison, \<^verbatim>\<open>replace(year=...)\<close> and the
  difference in days. The names are those of the library's own helper functions.
\<close>

record date =
  year :: int
  month :: int
  day :: int

definition is_leap :: "int \<Rightarrow> bool" where
  "is_leap y = (y mod 4 = 0 \<and> (y mod 100 \<noteq> 0 \<or> y mod 400 = 0))"

definition days_in_month :: "int \<Rightarrow> int \<Rightarrow> int" where
  "days_in_month y m =
     (if m = 2 \<and> is_leap y then 29
      else [31, 28, 31, 30, 31, 30, 31, 31, 30, 31, 30, 31] ! nat (m - 1))"

text \<open>\<^verbatim>\<open>date(year, month, day)\<close>: a \<^verbatim>\<open>ValueError\<close> outside the calendar.\<close>

definition date_new :: "int \<Rightarrow> int \<Rightarrow> int \<Rightarrow> error + date" where
  "date_new y m d =
     (if \<not> (1 \<le> y \<and> y \<le> 9999) then Inl ValueError
      else if \<not> (1 \<le> m \<and> m \<le> 12) then Inl ValueError
      else if \<not> (1 \<le> d \<and> d \<le> days_in_month y m) then Inl ValueError
      else Inr \<lparr>year = y, month = m, day = d\<rparr>)"

text \<open>What every \<^verbatim>\<open>date\<close> object satisfies, having gone through the constructor.\<close>

definition valid_date :: "date \<Rightarrow> bool" where
  "valid_date dt =
     (1 \<le> year dt \<and> year dt \<le> 9999 \<and> 1 \<le> month dt \<and> month dt \<le> 12 \<and>
      1 \<le> day dt \<and> day dt \<le> days_in_month (year dt) (month dt))"

text \<open>\<^verbatim>\<open>a < b\<close> on dates compares year, month and day in this order.\<close>

definition date_lt :: "date \<Rightarrow> date \<Rightarrow> bool" where
  "date_lt a b =
     (year a < year b \<or>
      (year a = year b \<and> (month a < month b \<or> (month a = month b \<and> day a < day b))))"

definition date_replace_year :: "date \<Rightarrow> int \<Rightarrow> error + date" where
  "date_replace_year dt y = date_new y (month dt) (day dt)"

definition days_before_year :: "int \<Rightarrow> int" where
  "days_before_year y =
     (let y1 = y - 1 in y1 * 365 + y1 div 4 - y1 div 100 + y1 div 400)"

definition days_before_month :: "int \<Rightarrow> int \<Rightarrow> int" where
  "days_before_month y m =
     [0, 31, 59, 90, 120, 151, 181, 212, 243, 273, 304, 334] ! nat (m - 1)
       + (if m > 2 \<and> is_leap y then 1 else 0)"

definition toordinal :: "date \<Rightarrow> int" where
  "toordinal dt = days_before_year (year dt) + days_before_month (year dt) (month dt) + day dt"

text \<open>\<^verbatim>\<open>(a - b).days\<close>\<close>

definition date_sub_days :: "date \<Rightarrow> date \<Rightarrow> int" where
  "date_sub_days a b = toordinal a - toordinal b"

subsection \<open>\<^verbatim>\<open>datetime.strptime(value, '%d%m%Y').date()\<close>\<close>

text \<open>
  The library turns the format into the regular expression
  \<^verbatim>\<open>(?P<d>3[0-1]|[1-2]\d|0[1-9]|[1-9]| [1-9])(?P<m>1[0-2]|0[1-9]|[1-9])(?P<Y>\d\d\d\d)\<close>,
  matches it at the start of the string and refuses a match that leaves characters over.
  An alternative is a list of character classes, each class a predicate on code points;
  a group is the list of its alternatives in the order of the pattern.
\<close>

fun match_classes :: "(int \<Rightarrow> bool) list \<Rightarrow> str \<Rightarrow> (str \<times> str) option" where
  "match_classes [] s = Some ([], s)"
| "match_classes (k # ks) [] = None"
| "match_classes (k # ks) (c # s) =
     (if k c
      then (case match_classes ks s of None \<Rightarrow> None | Some (m, r) \<Rightarrow> Some (c # m, r))
      else None)"

text \<open>The ways a group matches at the start of a string, in the order the matcher tries them.\<close>

definition group_matches :: "(int \<Rightarrow> bool) list list \<Rightarrow> str \<Rightarrow> (str \<times> str) list" where
  "group_matches alts s = List.map_filter (\<lambda>a. match_classes a s) alts"

definition re_d :: "(int \<Rightarrow> bool) list list" where
  "re_d = [[one_of ''3'', one_of ''01''], [one_of ''12'', is_digit],
           [one_of ''0'', one_of ''123456789''], [one_of ''123456789''],
           [one_of '' '', one_of ''123456789'']]"

definition re_m :: "(int \<Rightarrow> bool) list list" where
  "re_m = [[one_of ''1'', one_of ''012''], [one_of ''0'', one_of ''123456789''],
           [one_of ''123456789'']]"

definition re_Y :: "(int \<Rightarrow> bool) list list" where
  "re_Y = [[is_digit, is_digit, is_digit, is_digit]]"

text \<open>
  All matches of the three groups in sequence, by backtracking: the first one is the match
  that \<^verbatim>\<open>re.match\<close> returns. Each entry holds the three groups and the unmatched rest.
\<close>

definition strptime_matches :: "str \<Rightarrow> (str \<times> str \<times> str \<times> str) list" where
  "strptime_matches s =
     concat (map (\<lambda>(d, r1).
       concat (map (\<lambda>(m, r2).
         map (\<lambda>(y, r3). (d, m, y, r3)) (group_matches re_Y r2))
       (group_matches re_m r1)))
     (group_matches re_d s))"

text \<open>
  \<^verbatim>\<open>int(text)\<close> on a matched group: decimal digits of any script, after at most one
  leading blank.
\<close>

definition digit_val :: "int \<Rightarrow> int" where
  "digit_val c =
     (case List.find (\<lambda>(lo, hi). lo \<le> c \<and> c \<le> hi) decimal_digit_ranges of
        None \<Rightarrow> 0
      | Some (lo, hi) \<Rightarrow> (c - lo) mod 10)"

definition py_int :: "str \<Rightarrow> int" where
  "py_int s = foldl (\<lambda>a c. 10 * a + digit_val c) 0 (dropWhile (\<lambda>c. c = code CHR '' '') s)"

definition strptime :: "str \<Rightarrow> error + date" where
  "strptime s =
     (case strptime_matches s of
        [] \<Rightarrow> Inl ValueError
      | (d, m, y, rest) # _ \<Rightarrow>
          if rest \<noteq> [] then Inl ValueError
          else date_new (py_int y) (py_int m) (py_int d))"

subsection \<open>\<^verbatim>\<open>Birthday\<close>\<close>

text \<open>
  A \<^verbatim>\<open>Birthday\<close> object has the attribute \<^verbatim>\<open>_value\<close> only once the setter has stored a
  date: \<open>None\<close> here is the object without the attribute. The clock \<^verbatim>\<open>date.today()\<close> is
  the parameter \<open>today\<close>.
\<close>

datatype Birthday = Birthday (birthday_value: "date option")

text \<open>\<^verbatim>\<open>Birthday.__init__\<close>, which is the setter of \<^verbatim>\<open>Birthday.value\<close> (lines 133 to 142).\<close>

definition Birthday_init :: "date \<Rightarrow> str option \<Rightarrow> error + Birthday" where
  "Birthday_init today v =
     (case v of
        None \<Rightarrow> Inr (Birthday None)
      | Some s \<Rightarrow>
          if s = [] then Inr (Birthday None)
          else (case strptime s of
                  Inl e \<Rightarrow> Inl ValueError
                | Inr parsed \<Rightarrow>
                    if date_lt parsed today
                    then (case date_replace_year parsed (year today + 1) of
                            Inl e \<Rightarrow> Inl ValueError
                          | Inr bumped \<Rightarrow> Inr (Birthday (Some bumped)))
                    else Inr (Birthday (Some parsed))))"

text \<open>The getter \<^verbatim>\<open>return self._value\<close>: an \<^verbatim>\<open>AttributeError\<close> when nothing was stored.\<close>

definition Birthday_value :: "Birthday \<Rightarrow> error + date" where
  "Birthday_value b = (case birthday_value b of None \<Rightarrow> Inl AttributeError | Some d \<Rightarrow> Inr d)"

subsection \<open>\<^verbatim>\<open>Record\<close>\<close>

text \<open>
  The name field is the value wrapped by \<^verbatim>\<open>Name\<close>, which checks nothing. The birthday
  field is \<^verbatim>\<open>None\<close> or a \<^verbatim>\<open>Birthday\<close> object.
\<close>

record Record =
  name :: str
  phones :: "Phone list"
  birthday :: "Birthday option"

definition Record_init :: "str \<Rightarrow> Phone list option \<Rightarrow> Birthday option \<Rightarrow> Record" where
  "Record_init n ps b =
     \<lparr>name = n, phones = (case ps of None \<Rightarrow> [] | Some l \<Rightarrow> l), birthday = b\<rparr>"

text \<open>A Python list index: negative indices count from the end.\<close>

definition list_index :: "'a list \<Rightarrow> int \<Rightarrow> nat option" where
  "list_index xs i =
     (if 0 \<le> i \<and> i < int (length xs) then Some (nat i)
      else if i < 0 \<and> - int (length xs) \<le> i then Some (nat (int (length xs) + i))
      else None)"

definition add_phone :: "Record \<Rightarrow> str option \<Rightarrow> error + Record" where
  "add_phone r v =
     (case Phone_init v of
        Inl e \<Rightarrow> Inl e
      | Inr p \<Rightarrow> Inr (r\<lparr>phones := phones r @ [p]\<rparr>))"

definition edit_phone :: "Record \<Rightarrow> int \<Rightarrow> str option \<Rightarrow> error + Record" where
  "edit_phone r i v =
     (case Phone_init v of
        Inl e \<Rightarrow> Inl e
      | Inr p \<Rightarrow>
          (case list_index (phones r) i of
             None \<Rightarrow> Inl IndexError
           | Some j \<Rightarrow> Inr (r\<lparr>phones := (phones r)[j := p]\<rparr>)))"

definition delete_phone :: "Record \<Rightarrow> int \<Rightarrow> error + Record" where
  "delete_phone r i =
     (case list_index (phones r) i of
        None \<Rightarrow> Inl IndexError
      | Some j \<Rightarrow> Inr (r\<lparr>phones := take j (phones r) @ drop (Suc j) (phones r)\<rparr>))"

text \<open>
  \<^verbatim>\<open>days_to_birthday\<close>: the result \<open>None\<close> is Python's \<^verbatim>\<open>None\<close>. A \<^verbatim>\<open>Birthday\<close> object and
  a \<^verbatim>\<open>date\<close> object are always true in a condition, so the test of line 61 fails only on
  a birthday field that is \<^verbatim>\<open>None\<close>, and it reads the property \<^verbatim>\<open>value\<close> otherwise.
\<close>

definition days_to_birthday :: "date \<Rightarrow> Record \<Rightarrow> error + int option" where
  "days_to_birthday today r =
     (case birthday r of
        None \<Rightarrow> Inr None
      | Some b \<Rightarrow>
          (case Birthday_value b of
             Inl e \<Rightarrow> Inl e
           | Inr bd \<Rightarrow>
               (case date_new (year today) (month bd) (day bd) of
                  Inl e \<Rightarrow> Inl e
                | Inr next_birthday \<Rightarrow>
                    if date_lt next_birthday today
                    then (case date_new (year today + 1) (month bd) (day bd) of
                            Inl e \<Rightarrow> Inl e
                          | Inr next_birthday' \<Rightarrow>
                              Inr (Some (date_sub_days next_birthday' today)))
                    else Inr (Some (date_sub_days next_birthday today)))))"

subsection \<open>\<^verbatim>\<open>AddressBook\<close>\<close>

text \<open>
  The attribute \<^verbatim>\<open>data\<close> of the \<^verbatim>\<open>UserDict\<close> is a Python dictionary, which keeps its
  keys in the order of their first insertion: an association list, where an assignment to
  a key that is present replaces the value in place and an assignment to a new key
  appends. A record that the program mutates inside the dictionary is written back under
  its key.
\<close>

type_synonym AddressBook = "(str \<times> Record) list"

definition AddressBook_init :: AddressBook where
  "AddressBook_init = []"

definition add_contact :: "AddressBook \<Rightarrow> Record \<Rightarrow> AddressBook" where
  "add_contact ab record = AList.update (name record) record ab"

text \<open>
  \<^verbatim>\<open>edit_contact\<close>: the lookup raises \<^verbatim>\<open>KeyError\<close>; \<^verbatim>\<open>edit_phone\<close> changes the record
  where it lies, under \<open>n\<close>; \<^verbatim>\<open>add_contact\<close> then stores it under its own name.
\<close>

definition edit_contact :: "AddressBook \<Rightarrow> str \<Rightarrow> str option \<Rightarrow> error + AddressBook" where
  "edit_contact ab n phone =
     (case map_of ab n of
        None \<Rightarrow> Inl KeyError
      | Some record \<Rightarrow>
          (case edit_phone record 0 phone of
             Inl e \<Rightarrow> Inl e
           | Inr record' \<Rightarrow> Inr (add_contact (AList.update n record' ab) record')))"

definition delete_contact :: "AddressBook \<Rightarrow> str \<Rightarrow> error + AddressBook" where
  "delete_contact ab n =
     (case map_of ab n of None \<Rightarrow> Inl KeyError | Some _ \<Rightarrow> Inr (AList.delete n ab))"

subsection \<open>\<^verbatim>\<open>AddressBook.search\<close>\<close>

text \<open>
  \<^verbatim>\<open>str.lower()\<close>, character by character. Below 256 the ASCII capitals and the
  Latin-1 capitals (192 to 222, without the multiplication sign 215) move up by 32 and
  nothing else changes. The case tables of the Unicode library for the code points from
  256 on are not part of this development: such a character is kept as it is, which is
  what the library does for the digits and for every script without case.
\<close>

definition lower_char :: "int \<Rightarrow> int" where
  "lower_char n =
     (if (65 \<le> n \<and> n \<le> 90) \<or> (192 \<le> n \<and> n \<le> 222 \<and> n \<noteq> 215) then n + 32 else n)"

definition lower :: "str \<Rightarrow> str" where
  "lower s = map lower_char s"

text \<open>\<^verbatim>\<open>q in s\<close> on strings: \<open>q\<close> occurs in \<open>s\<close> as a contiguous substring.\<close>

fun contains :: "str \<Rightarrow> str \<Rightarrow> bool" where
  "contains [] q = (q = [])"
| "contains (c # s) q = (take (length q) (c # s) = q \<or> contains s q)"

text \<open>
  The attribute \<^verbatim>\<open>phone_number\<close> that line 108 reads. Neither \<^verbatim>\<open>Phone\<close> nor \<^verbatim>\<open>Field\<close>
  defines it and no method assigns it (the objects hold \<^verbatim>\<open>_value\<close> only), so the
  attribute lookup raises \<^verbatim>\<open>AttributeError\<close> on every \<^verbatim>\<open>Phone\<close> object.
\<close>

definition phone_number :: "Phone \<Rightarrow> error + str" where
  "phone_number p = Inl AttributeError"

text \<open>The inner loop of lines 107 to 110: does a phone match, which ends the loop?\<close>

fun search_phones :: "str \<Rightarrow> Phone list \<Rightarrow> error + bool" where
  "search_phones query [] = Inr False"
| "search_phones query (phone # rest) =
     (case phone_number phone of
        Inl e \<Rightarrow> Inl e
      | Inr number \<Rightarrow>
          if contains (lower number) query then Inr True else search_phones query rest)"

text \<open>The outer loop, with \<open>query\<close> already in lower case and \<open>results\<close> as accumulator.\<close>

fun search_loop :: "str \<Rightarrow> Record list \<Rightarrow> Record list \<Rightarrow> error + Record list" where
  "search_loop query [] results = Inr results"
| "search_loop query (record # rest) results =
     (if contains (lower (name record)) query
      then search_loop query rest (results @ [record])
      else (case search_phones query (phones record) of
              Inl e \<Rightarrow> Inl e
            | Inr found \<Rightarrow>
                search_loop query rest (if found then results @ [record] else results)))"

definition search :: "AddressBook \<Rightarrow> str \<Rightarrow> error + Record list" where
  "search ab query = search_loop (lower query) (map snd ab) []"

subsection \<open>Persistence\<close>

text \<open>
  The file system is a map from file names to file contents. The pickle library is a
  parameter: \<open>dump\<close> is what \<^verbatim>\<open>pickle.dump\<close> writes for a dictionary and \<open>load\<close> what
  \<^verbatim>\<open>pickle.load\<close> makes of a file's content, an exception or the dictionary to install.
  Opening a file for writing is taken to succeed; opening a missing file for reading is
  the \<^verbatim>\<open>FileNotFoundError\<close> that \<^verbatim>\<open>load_from_file\<close> catches.
\<close>

definition save_to_file ::
  "(AddressBook \<Rightarrow> 'f) \<Rightarrow> AddressBook \<Rightarrow> (string \<rightharpoonup> 'f) \<Rightarrow> string \<Rightarrow> (string \<rightharpoonup> 'f)" where
  "save_to_file dump ab fs filename = fs(filename \<mapsto> dump ab)"

definition load_from_file ::
  "('f \<Rightarrow> error + AddressBook) \<Rightarrow> AddressBook \<Rightarrow> (string \<rightharpoonup> 'f) \<Rightarrow> string \<Rightarrow> error + AddressBook" where
  "load_from_file load ab fs filename =
     (case fs filename of
        None \<Rightarrow> Inr ab
      | Some content \<Rightarrow> (case load content of Inl e \<Rightarrow> Inl e | Inr d \<Rightarrow> Inr d))"

subsection \<open>Branches of the command loop\<close>

text \<open>
  A branch returns the store and the line it prints, or \<open>Inl\<close> for an exception that no
  handler of \<^verbatim>\<open>main\<close> catches, which ends the process.

  The branch \<^verbatim>\<open>add\<close> (lines 208 to 222), from the list \<open>data\<close> of the words of the input
  line. It catches \<^verbatim>\<open>ValueError\<close> and prints the message of the exception.
\<close>

definition command_add :: "date \<Rightarrow> AddressBook \<Rightarrow> str list \<Rightarrow> AddressBook \<times> string" where
  "command_add today ab data =
     (if length data < 2 then (ab, ''Please add other information'')
      else
        let n = data ! 0; phone = data ! 1;
            bday = (if length data > 2 then Some (data ! 2) else None)
        in (case Phone_init (Some phone) of
              Inl e \<Rightarrow> (ab, ''Phone number should be in the format +380XXXXXXXXX'')
            | Inr p \<Rightarrow>
                (case Birthday_init today bday of
                   Inl e \<Rightarrow> (ab, ''Invalid birthday date format. Use DDMMYYYY.'')
                 | Inr b \<Rightarrow>
                     (add_contact ab (Record_init n (Some [p]) (Some b)), ''Contact added''))))"

text \<open>The branch \<^verbatim>\<open>load\<close> (lines 269 to 271) and the first statement of \<^verbatim>\<open>main\<close>: no handler.\<close>

definition command_load ::
  "('f \<Rightarrow> error + AddressBook) \<Rightarrow> AddressBook \<Rightarrow> (string \<rightharpoonup> 'f) \<Rightarrow> error + AddressBook \<times> string" where
  "command_load load ab fs =
     (case load_from_file load ab fs ''address_book.pkl'' of
        Inl e \<Rightarrow> Inl e
      | Inr ab' \<Rightarrow> Inr (ab', ''Address book loaded''))"

definition main_startup ::
  "('f \<Rightarrow> error + AddressBook) \<Rightarrow> (string \<rightharpoonup> 'f) \<Rightarrow> error + AddressBook \<times> string" where
  "main_startup load fs =
     (case load_from_file load AddressBook_init fs ''address_book.pkl'' of
        Inl e \<Rightarrow> Inl e
      | Inr ab \<Rightarrow> Inr (ab, ''Hello!''))"

subsection \<open>Sequences of store operations\<close>

text \<open>
  What a client of the store can do to it, one constructor per call: the branch
  \<^verbatim>\<open>add\<close>, the methods of the record found under a name
  (\<^verbatim>\<open>ab.data[n].add_phone(phone)\<close> and its siblings), the methods of the book, and the
  two persistence calls. A phone argument is a string or \<^verbatim>\<open>None\<close>, which the setter
  lets through.
\<close>

datatype op =
    Add "str list"
  | AddPhone str "str option"
  | EditPhone str int "str option"
  | DeletePhone str int
  | EditContact str "str option"
  | DeleteContact str
  | Save string
  | Load string

definition on_record ::
  "AddressBook \<Rightarrow> str \<Rightarrow> (Record \<Rightarrow> error + Record) \<Rightarrow> error + AddressBook" where
  "on_record ab n f =
     (case map_of ab n of
        None \<Rightarrow> Inl KeyError
      | Some r \<Rightarrow> (case f r of Inl e \<Rightarrow> Inl e | Inr r' \<Rightarrow> Inr (AList.update n r' ab)))"

text \<open>One call changes the store, the file system, or raises and changes neither.\<close>

fun apply_op ::
  "date \<Rightarrow> (AddressBook \<Rightarrow> 'f) \<Rightarrow> ('f \<Rightarrow> error + AddressBook) \<Rightarrow>
   AddressBook \<times> (string \<rightharpoonup> 'f) \<Rightarrow> op \<Rightarrow> error + AddressBook \<times> (string \<rightharpoonup> 'f)" where
  "apply_op today dump load (ab, fs) (Add data) = Inr (fst (command_add today ab data), fs)"
| "apply_op today dump load (ab, fs) (AddPhone n phone) =
     (case on_record ab n (\<lambda>r. add_phone r phone) of
        Inl e \<Rightarrow> Inl e | Inr ab' \<Rightarrow> Inr (ab', fs))"
| "apply_op today dump load (ab, fs) (EditPhone n i phone) =
     (case on_record ab n (\<lambda>r. edit_phone r i phone) of
        Inl e \<Rightarrow> Inl e | Inr ab' \<Rightarrow> Inr (ab', fs))"
| "apply_op today dump load (ab, fs) (DeletePhone n i) =
     (case on_record ab n (\<lambda>r. delete_phone r i) of
        Inl e \<Rightarrow> Inl e | Inr ab' \<Rightarrow> Inr (ab', fs))"
| "apply_op today dump load (ab, fs) (EditContact n phone) =
     (case edit_contact ab n phone of Inl e \<Rightarrow> Inl e | Inr ab' \<Rightarrow> Inr (ab', fs))"
| "apply_op today dump load (ab, fs) (DeleteContact n) =
     (case delete_contact ab n of Inl e \<Rightarrow> Inl e | Inr ab' \<Rightarrow> Inr (ab', fs))"
| "apply_op today dump load (ab, fs) (Save filename) =
     Inr (ab, save_to_file dump ab fs filename)"
| "apply_op today dump load (ab, fs) (Load filename) =
     (case load_from_file load ab fs filename of
        Inl e \<Rightarrow> Inl e | Inr ab' \<Rightarrow> Inr (ab', fs))"

text \<open>A client that recovers from every exception and goes on with the store as it is.\<close>

fun run_ops ::
  "date \<Rightarrow> (AddressBook \<Rightarrow> 'f) \<Rightarrow> ('f \<Rightarrow> error + AddressBook) \<Rightarrow>
   AddressBook \<times> (string \<rightharpoonup> 'f) \<Rightarrow> op list \<Rightarrow> AddressBook \<times> (string \<rightharpoonup> 'f)" where
  "run_ops today dump load st [] = st"
| "run_ops today dump load st (x # xs) =
     (case apply_op today dump load st x of
        Inl e \<Rightarrow> run_ops today dump load st xs
      | Inr st' \<Rightarrow> run_ops today dump load st' xs)"

subsection \<open>Example values\<close>

text \<open>
  A pickle library in miniature, for the examples: the content of a file is a pickled
  dictionary or something that does not parse.
\<close>

abbreviation example_dump :: "AddressBook \<Rightarrow> AddressBook option" where
  "example_dump d \<equiv> Some d"

abbreviation example_load :: "AddressBook option \<Rightarrow> error + AddressBook" where
  "example_load c \<equiv> (case c of None \<Rightarrow> Inl UnpicklingError | Some d \<Rightarrow> Inr d)"

abbreviation alice :: Record where
  "alice \<equiv> \<lparr>name = lit ''Alice'', phones = [Phone (Some (lit ''+380501234567''))],
     birthday = Some (Birthday (Some \<lparr>year = 2027, month = 6, day = 15\<rparr>))\<rparr>"

abbreviation bob :: Record where
  "bob \<equiv> \<lparr>name = lit ''Bob'',
     phones = [Phone (Some (lit ''+380671234567'')), Phone (Some (lit ''380501234567''))],
     birthday = Some (Birthday None)\<rparr>"

subsection \<open>Predicates on stores\<close>

text \<open>
  The phone holds a value that went through the format: a string that the pattern
  matches.
\<close>

definition phone_validated :: "Phone \<Rightarrow> bool" where
  "phone_validated p = (case phone_value p of None \<Rightarrow> False | Some s \<Rightarrow> phone_re_match s)"

definition phones_validated :: "AddressBook \<Rightarrow> bool" where
  "phones_validated ab = list_all (\<lambda>(k, r). list_all phone_validated (phones r)) ab"

text \<open>
  The phone holds a value that the setter lets through: \<^verbatim>\<open>None\<close>, or a string that the
  pattern matches.
\<close>

definition phone_accepted :: "Phone \<Rightarrow> bool" where
  "phone_accepted p = (case phone_value p of None \<Rightarrow> True | Some s \<Rightarrow> phone_re_match s)"

definition phones_accepted :: "AddressBook \<Rightarrow> bool" where
  "phones_accepted ab = list_all (\<lambda>(k, r). list_all phone_accepted (phones r)) ab"

text \<open>Every record lies under its own name, as \<^verbatim>\<open>add_contact\<close> stores it.\<close>

definition keyed_by_name :: "AddressBook \<Rightarrow> bool" where
  "keyed_by_name ab = list_all (\<lambda>(k, r). name r = k) ab"

section \<open>Properties\<close>

subsection \<open>The format of phone numbers\<close>

lemma is_digit_ge_48: "is_digit c \<Longrightarrow> 48 \<le> c"
proof -
  have "list_all (\<lambda>(lo, hi). 48 \<le> lo) decimal_digit_ranges" by code_simp
  then show "is_digit c \<Longrightarrow> 48 \<le> c"
    unfolding is_digit_def list_ex_iff list_all_iff by fastforce
qed

lemma is_digit_not_newline: "is_digit c \<Longrightarrow> c \<noteq> 10"
  using is_digit_ge_48[of c] by auto



lemma phone_re_match_split:
  "phone_re_match v \<longleftrightarrow>
     (\<exists>ds rest. optional_plus v = lit ''380'' @ ds @ rest \<and> length ds = 9 \<and>
        list_all is_digit ds \<and> at_dollar rest)"
proof
  assume h: "phone_re_match v"
  define r where "r = optional_plus v"
  have "drop 9 (drop 3 r) = drop 12 r" by simp
  then have "r = take 3 r @ take 9 (drop 3 r) @ drop 12 r"
    by (metis append_take_drop_id)
  with h have "r = lit ''380'' @ take 9 (drop 3 r) @ drop 12 r"
    by (simp add: phone_re_match_def Let_def r_def)
  moreover from h have "length (take 9 (drop 3 r)) = 9" "list_all is_digit (take 9 (drop 3 r))"
    "at_dollar (drop 12 r)"
    by (simp_all add: phone_re_match_def Let_def r_def)
  ultimately show "\<exists>ds rest. optional_plus v = lit ''380'' @ ds @ rest \<and> length ds = 9 \<and>
      list_all is_digit ds \<and> at_dollar rest"
    unfolding r_def by blast
next
  assume "\<exists>ds rest. optional_plus v = lit ''380'' @ ds @ rest \<and> length ds = 9 \<and>
      list_all is_digit ds \<and> at_dollar rest"
  then show "phone_re_match v"
    by (auto simp: phone_re_match_def Let_def lit_def)
qed

lemma nine_decimals_split:
  "opt_plus380_nine_decimals s \<longleftrightarrow>
     (\<exists>ds. optional_plus s = lit ''380'' @ ds \<and> length ds = 9 \<and> list_all is_digit ds)"
proof
  assume h: "opt_plus380_nine_decimals s"
  define r where "r = optional_plus s"
  have "r = take 3 r @ drop 3 r" by simp
  with h have "r = lit ''380'' @ drop 3 r"
    by (simp add: opt_plus380_nine_decimals_def Let_def r_def)
  moreover from h have "length (drop 3 r) = 9" "list_all is_digit (drop 3 r)"
    by (simp_all add: opt_plus380_nine_decimals_def Let_def r_def)
  ultimately show "\<exists>ds. optional_plus s = lit ''380'' @ ds \<and> length ds = 9 \<and> list_all is_digit ds"
    unfolding r_def by blast
next
  assume "\<exists>ds. optional_plus s = lit ''380'' @ ds \<and> length ds = 9 \<and> list_all is_digit ds"
  then show "opt_plus380_nine_decimals s"
    by (auto simp: opt_plus380_nine_decimals_def Let_def lit_def)
qed

lemma optional_plus_cases: "optional_plus s = x \<Longrightarrow> s = x \<or> s = code CHR ''+'' # x"
  by (cases s) (auto split: if_splits)


lemma match_imp_nine_decimals:
  assumes "phone_re_match s" shows "opt_plus380_nine_decimals (chomp s)"
proof -
  from assms obtain ds rest where r: "optional_plus s = lit ''380'' @ ds @ rest"
    and ds: "length ds = 9" "list_all is_digit ds" and rest: "rest = [] \<or> rest = [10]"
    unfolding phone_re_match_split at_dollar_def by blast
  from ds have ne: "ds \<noteq> []" by auto
  with ds have "is_digit (last ds)" by (simp add: list_all_iff)
  then have last_ds: "last ds \<noteq> 10" by (rule is_digit_not_newline)
  from optional_plus_cases[OF r] obtain pre where pre: "pre = [] \<or> pre = [code CHR ''+'']"
    and s: "s = pre @ lit ''380'' @ ds @ rest" by auto
  have "chomp s = pre @ lit ''380'' @ ds"
  proof (cases "rest = []")
    case True
    with s ne last_ds show ?thesis by (simp add: chomp_def)
  next
    case False
    with rest have "rest = [10]" by simp
    with s have "s = (pre @ lit ''380'' @ ds) @ [10]" by simp
    then show ?thesis unfolding chomp_def by (simp only: butlast_snoc last_snoc) simp
  qed
  moreover from pre have "optional_plus (pre @ lit ''380'' @ ds) = lit ''380'' @ ds"
    by (auto simp: lit_def code_def)
  ultimately show ?thesis
    using ds unfolding nine_decimals_split by auto
qed

lemma optional_plus_append:
  "x \<noteq> [] \<Longrightarrow> optional_plus (x @ rest) = optional_plus x @ rest"
  by (cases x) auto

lemma chomp_cases: "s = chomp s \<or> s = chomp s @ [10]"
proof (cases "s \<noteq> [] \<and> last s = 10")
  case True
  then have "s = butlast s @ [10]" by (metis append_butlast_last_id)
  with True show ?thesis by (simp add: chomp_def)
next
  case False
  then show ?thesis by (auto simp: chomp_def)
qed

text \<open>The pattern matches exactly the strings of that form, with or without a final newline.\<close>

lemma phone_re_match_iff: "phone_re_match s \<longleftrightarrow> opt_plus380_nine_decimals (chomp s)"
proof
  assume "phone_re_match s"
  then show "opt_plus380_nine_decimals (chomp s)" by (rule match_imp_nine_decimals)
next
  assume h: "opt_plus380_nine_decimals (chomp s)"
  then obtain ds where o: "optional_plus (chomp s) = lit ''380'' @ ds"
    and ds: "length ds = 9" "list_all is_digit ds"
    unfolding nine_decimals_split by blast
  from o have ne: "chomp s \<noteq> []" by (auto simp: lit_def)
  from chomp_cases[of s] obtain rest where s: "s = chomp s @ rest" and rest: "rest = [] \<or> rest = [10]"
    by auto
  from s have "optional_plus s = optional_plus (chomp s @ rest)" by simp
  also from ne have "\<dots> = optional_plus (chomp s) @ rest" by (rule optional_plus_append)
  finally have "optional_plus s = lit ''380'' @ ds @ rest" using o by simp
  with ds rest show "phone_re_match s"
    unfolding phone_re_match_split at_dollar_def by blast
qed




subsection \<open>Birthdays\<close>

text \<open>
  Claim C2, at an input where the code departs from it. Today is 1 March 2026 and the
  birthday entered is 15 June 2020: 15 June has not yet occurred this year, so the claim
  asks for the year 2026. The setter compares the date it parsed, with the year of birth
  still in it, to today, finds it in the past and stores the year 2027.
\<close>

theorem Birthday_init_later_this_year:
  "Birthday_init \<lparr>year = 2026, month = 3, day = 1\<rparr> (Some (lit ''15062020'')) =
     Inr (Birthday (Some \<lparr>year = 2027, month = 6, day = 15\<rparr>))"
  by code_simp

subsection \<open>Searching\<close>

text \<open>
  Claim C3, at the input of its scenario. The branch \<^verbatim>\<open>add\<close> stores Alice with the phone
  \<^verbatim>\<open>+380501234567\<close>; the query \<^verbatim>\<open>380501\<close> does not occur in her name, so the search goes
  on to her phones, reads \<^verbatim>\<open>phone_number\<close> and raises \<^verbatim>\<open>AttributeError\<close> where the claim
  asks for the record of Alice.
\<close>

theorem search_by_phone_raises:
  "command_add \<lparr>year = 2026, month = 3, day = 1\<rparr> AddressBook_init
      [lit ''Alice'', lit ''+380501234567'', lit ''15062020''] =
     ([(lit ''Alice'', alice)], ''Contact added'') \<and>
   search [(lit ''Alice'', alice)] (lit ''380501'') = Inl AttributeError"
  by code_simp

subsection \<open>Saving and loading\<close>

text \<open>
  Claim C4. With a pickle library whose \<open>load\<close> gives back the dictionary that \<open>dump\<close> was
  given, loading the file that \<^verbatim>\<open>save_to_file\<close> wrote installs the saved store itself,
  whatever the store held before: the same keys in the same order, and under each key the
  same name, the same list of phones and the same birthday.
\<close>

theorem save_then_load:
  assumes "\<And>d. load (dump d) = Inr d"
  shows "load_from_file load ab' (save_to_file dump ab fs filename) filename = Inr ab"
  using assms by (simp add: load_from_file_def save_to_file_def)

text \<open>The theorem of C4 at a store of two contacts, Bob inserted before Alice.\<close>

theorem save_then_load_witness:
  "(\<forall>d. example_load (example_dump d) = Inr d) \<and>
   load_from_file example_load AddressBook_init
     (save_to_file example_dump [(lit ''Bob'', bob), (lit ''Alice'', alice)] Map.empty
        ''address_book.pkl'')
     ''address_book.pkl'' = Inr [(lit ''Bob'', bob), (lit ''Alice'', alice)]"
proof -
  have h: "\<And>d. example_load (example_dump d) = Inr d"
    by simp
  show ?thesis
    using save_then_load [of example_load example_dump, OF h]
    by simp
qed

text \<open>
  Claim C5, as the code has it. Loading from a name under which there is no file raises
  nothing and leaves the store as it was; a store that was empty, as the one \<^verbatim>\<open>main\<close>
  starts with, is empty afterwards.
\<close>

theorem load_from_file_missing:
  assumes "fs filename = None"
  shows "load_from_file load ab fs filename = Inr ab \<and>
         load_from_file load AddressBook_init fs filename = Inr AddressBook_init"
  using assms by (simp add: load_from_file_def)

text \<open>The theorem of C5 on an empty file system.\<close>

theorem load_from_file_missing_witness:
  "(Map.empty :: string \<rightharpoonup> AddressBook option) ''address_book.pkl'' = None \<and>
   load_from_file example_load [(lit ''Alice'', alice)] Map.empty ''address_book.pkl'' =
     Inr [(lit ''Alice'', alice)] \<and>
   load_from_file example_load AddressBook_init Map.empty ''address_book.pkl'' =
     Inr AddressBook_init"
proof -
  have h: "(Map.empty :: string \<rightharpoonup> AddressBook option) ''address_book.pkl'' = None"
    by simp
  from h load_from_file_missing [OF h] show ?thesis by blast
qed

text \<open>
  Claim C5 as stated fails: there is no file, the store holds Alice, and the store after
  loading still holds Alice, so it is not the empty store.
\<close>

theorem load_from_file_keeps_store:
  "load_from_file example_load [(lit ''Alice'', alice)] Map.empty ''address_book.pkl'' =
     Inr [(lit ''Alice'', alice)] \<and>
   [(lit ''Alice'', alice)] \<noteq> AddressBook_init"
  by (simp add: load_from_file_def AddressBook_init_def)

text \<open>
  Claim C9, as the code has it. When the file exists and the unpickler raises on its
  content, \<^verbatim>\<open>load_from_file\<close> raises the same exception to its caller; for the file
  \<^verbatim>\<open>address_book.pkl\<close> the callers are the branch \<^verbatim>\<open>load\<close> and the start of \<^verbatim>\<open>main\<close>,
  which have no handler, so the exception ends the process.
\<close>

theorem load_from_file_corrupt:
  assumes "fs filename = Some content" and "load content = Inl e"
  shows "load_from_file load ab fs filename = Inl e \<and>
         (filename = ''address_book.pkl'' \<longrightarrow>
            command_load load ab fs = Inl e \<and> main_startup load fs = Inl e)"
  using assms by (auto simp: load_from_file_def command_load_def main_startup_def)

text \<open>The theorem of C9 on a file that holds no pickle.\<close>

theorem load_from_file_corrupt_witness:
  "[''address_book.pkl'' \<mapsto> None] ''address_book.pkl'' = Some (None :: AddressBook option) \<and>
   example_load None = Inl UnpicklingError \<and>
   load_from_file example_load AddressBook_init [''address_book.pkl'' \<mapsto> None]
     ''address_book.pkl'' = Inl UnpicklingError \<and>
   main_startup example_load [''address_book.pkl'' \<mapsto> None] = Inl UnpicklingError"
proof -
  have a: "[''address_book.pkl'' \<mapsto> None] ''address_book.pkl'' = Some (None :: AddressBook option)"
    by simp
  have b: "example_load None = Inl UnpicklingError"
    by simp
  from a b load_from_file_corrupt
    [of "[''address_book.pkl'' \<mapsto> None]" "''address_book.pkl''" "None :: AddressBook option"
        example_load UnpicklingError AddressBook_init]
  show ?thesis by simp
qed

text \<open>
  Claim C9 as stated fails: on a file that holds no pickle, the branch \<^verbatim>\<open>load\<close> and the
  start of \<^verbatim>\<open>main\<close> end with the unpickler's exception uncaught.
\<close>

theorem command_load_corrupt_ends_process:
  "command_load example_load [(lit ''Alice'', alice)] [''address_book.pkl'' \<mapsto> None] =
     Inl UnpicklingError \<and>
   main_startup example_load [''address_book.pkl'' \<mapsto> None] = Inl UnpicklingError"
  by (simp add: load_from_file_def command_load_def main_startup_def)

subsection \<open>What the phones of a store hold\<close>

lemma set_AList_update: "set (AList.update k v al) \<subseteq> insert (k, v) (set al)"
  by (induction al) auto

lemma set_AList_delete: "set (AList.delete k al) \<subseteq> set al"
  by (auto simp: AList.delete_eq)

lemma phones_accepted_iff:
  "phones_accepted ab \<longleftrightarrow> (\<forall>(k, r) \<in> set ab. \<forall>p \<in> set (phones r). phone_accepted p)"
  by (auto simp: phones_accepted_def list_all_iff)

lemma phones_accepted_update:
  assumes "phones_accepted ab" and "\<forall>p \<in> set (phones r). phone_accepted p"
  shows "phones_accepted (AList.update k r ab)"
  using assms set_AList_update[of k r ab] unfolding phones_accepted_iff by blast

lemma phones_accepted_delete:
  "phones_accepted ab \<Longrightarrow> phones_accepted (AList.delete k ab)"
  using set_AList_delete[of k ab] unfolding phones_accepted_iff by blast

lemma phones_accepted_lookup:
  "phones_accepted ab \<Longrightarrow> map_of ab n = Some r \<Longrightarrow> \<forall>p \<in> set (phones r). phone_accepted p"
  unfolding phones_accepted_iff by (auto dest: map_of_SomeD)

lemma Phone_init_accepted: "Phone_init v = Inr p \<Longrightarrow> phone_accepted p"
  by (auto simp: Phone_init_def phone_accepted_def split: option.splits if_splits)

lemma add_phone_accepted:
  assumes "add_phone r v = Inr r'" and "\<forall>p \<in> set (phones r). phone_accepted p"
  shows "\<forall>p \<in> set (phones r'). phone_accepted p"
  using assms by (auto simp: add_phone_def split: sum.splits dest: Phone_init_accepted)

lemma edit_phone_accepted:
  assumes "edit_phone r i v = Inr r'" and "\<forall>p \<in> set (phones r). phone_accepted p"
  shows "\<forall>p \<in> set (phones r'). phone_accepted p"
proof -
  from assms(1) obtain p j where p: "Phone_init v = Inr p"
    and r': "r' = r\<lparr>phones := (phones r)[j := p]\<rparr>"
    by (auto simp: edit_phone_def split: sum.splits option.splits)
  from p have "phone_accepted p" by (rule Phone_init_accepted)
  with assms(2) r' set_update_subset_insert[of "phones r" j p] show ?thesis by auto
qed

lemma delete_phone_accepted:
  assumes "delete_phone r i = Inr r'" and "\<forall>p \<in> set (phones r). phone_accepted p"
  shows "\<forall>p \<in> set (phones r'). phone_accepted p"
proof -
  from assms(1) obtain j where "r' = r\<lparr>phones := take j (phones r) @ drop (Suc j) (phones r)\<rparr>"
    by (auto simp: delete_phone_def split: option.splits)
  then have "set (phones r') \<subseteq> set (phones r)"
    using set_take_subset[of j "phones r"] set_drop_subset[of "Suc j" "phones r"] by auto
  with assms(2) show ?thesis by blast
qed

lemma on_record_accepted:
  assumes "on_record ab n f = Inr ab'" and "phones_accepted ab"
    and "\<And>r r'. f r = Inr r' \<Longrightarrow> \<forall>p \<in> set (phones r). phone_accepted p
           \<Longrightarrow> \<forall>p \<in> set (phones r'). phone_accepted p"
  shows "phones_accepted ab'"
proof -
  from assms(1) obtain r r' where "map_of ab n = Some r" "f r = Inr r'" "ab' = AList.update n r' ab"
    by (auto simp: on_record_def split: option.splits sum.splits)
  with assms(2,3) show ?thesis
    by (auto intro!: phones_accepted_update dest: phones_accepted_lookup)
qed

lemma edit_contact_accepted:
  assumes "edit_contact ab n v = Inr ab'" and "phones_accepted ab"
  shows "phones_accepted ab'"
proof -
  from assms(1) obtain r r' where r: "map_of ab n = Some r" and e: "edit_phone r 0 v = Inr r'"
    and ab': "ab' = add_contact (AList.update n r' ab) r'"
    by (auto simp: edit_contact_def split: option.splits sum.splits)
  from assms(2) r have "\<forall>p \<in> set (phones r). phone_accepted p" by (rule phones_accepted_lookup)
  with e have "\<forall>p \<in> set (phones r'). phone_accepted p" by (rule edit_phone_accepted)
  with assms(2) ab' show ?thesis
    by (simp add: add_contact_def phones_accepted_update)
qed

lemma delete_contact_accepted:
  "delete_contact ab n = Inr ab' \<Longrightarrow> phones_accepted ab \<Longrightarrow> phones_accepted ab'"
  by (auto simp: delete_contact_def phones_accepted_delete split: option.splits)

lemma command_add_accepted:
  assumes "phones_accepted ab"
  shows "phones_accepted (fst (command_add today ab data))"
proof -
  have "phones_accepted (add_contact ab (Record_init n (Some [p]) b))"
    if "Phone_init v = Inr p" for n p b v
    using that assms
    by (auto simp: add_contact_def Record_init_def intro!: phones_accepted_update
        dest: Phone_init_accepted)
  then show ?thesis
    using assms by (auto simp: command_add_def Let_def split: sum.splits)
qed

text \<open>
  One call keeps the invariant of the store together with that of the file system: every
  file that unpickles gives a store of such phones.
\<close>

lemma apply_op_accepted:
  assumes rt: "\<And>d. load (dump d) = Inr d"
    and op: "apply_op today dump load (ab, fs) x = Inr (ab', fs')"
    and ab: "phones_accepted ab"
    and fs: "\<And>f c d. fs f = Some c \<Longrightarrow> load c = Inr d \<Longrightarrow> phones_accepted d"
  shows "phones_accepted ab' \<and> (\<forall>f c d. fs' f = Some c \<longrightarrow> load c = Inr d \<longrightarrow> phones_accepted d)"
proof (cases x)
  case (Add data)
  with op ab fs show ?thesis by (auto simp: command_add_accepted)
next
  case (AddPhone n s)
  with op have "on_record ab n (\<lambda>r. add_phone r s) = Inr ab'" "fs' = fs"
    by (auto split: sum.splits)
  with ab fs show ?thesis
    by (metis on_record_accepted add_phone_accepted)
next
  case (EditPhone n i s)
  with op have "on_record ab n (\<lambda>r. edit_phone r i s) = Inr ab'" "fs' = fs"
    by (auto split: sum.splits)
  with ab fs show ?thesis
    by (metis on_record_accepted edit_phone_accepted)
next
  case (DeletePhone n i)
  with op have "on_record ab n (\<lambda>r. delete_phone r i) = Inr ab'" "fs' = fs"
    by (auto split: sum.splits)
  with ab fs show ?thesis
    by (metis on_record_accepted delete_phone_accepted)
next
  case (EditContact n s)
  with op have "edit_contact ab n s = Inr ab'" "fs' = fs"
    by (auto split: sum.splits)
  with ab fs show ?thesis
    by (metis edit_contact_accepted)
next
  case (DeleteContact n)
  with op have "delete_contact ab n = Inr ab'" "fs' = fs"
    by (auto split: sum.splits)
  with ab fs show ?thesis
    by (metis delete_contact_accepted)
next
  case (Save filename)
  with op have "ab' = ab" "fs' = fs(filename \<mapsto> dump ab)"
    by (auto simp: save_to_file_def)
  with ab fs rt show ?thesis by (auto split: if_splits)
next
  case (Load filename)
  with op have l: "load_from_file load ab fs filename = Inr ab'" and "fs' = fs"
    by (auto split: sum.splits)
  from l ab fs have "phones_accepted ab'"
    by (auto simp: load_from_file_def split: option.splits sum.splits)
  with \<open>fs' = fs\<close> fs show ?thesis by blast
qed

lemma run_ops_accepted:
  assumes rt: "\<And>d. load (dump d) = Inr d"
  shows "phones_accepted (fst st) \<Longrightarrow>
         (\<And>f c d. snd st f = Some c \<Longrightarrow> load c = Inr d \<Longrightarrow> phones_accepted d) \<Longrightarrow>
         phones_accepted (fst (run_ops today dump load st ops))"
proof (induction ops arbitrary: st)
  case Nil
  then show ?case by simp
next
  case (Cons x xs)
  obtain ab fs where st: "st = (ab, fs)" by (cases st)
  show ?case
  proof (cases "apply_op today dump load st x")
    case (Inl e)
    with Cons show ?thesis by simp
  next
    case (Inr st')
    obtain ab' fs' where st': "st' = (ab', fs')" by (cases st')
    from Inr st st' have op: "apply_op today dump load (ab, fs) x = Inr (ab', fs')" by simp
    from Cons.prems st have ab: "phones_accepted ab" 
      and fs: "\<And>f c d. fs f = Some c \<Longrightarrow> load c = Inr d \<Longrightarrow> phones_accepted d" by auto
    from apply_op_accepted[OF rt op ab fs]
    have "phones_accepted (fst st')"
      and "\<And>f c d. snd st' f = Some c \<Longrightarrow> load c = Inr d \<Longrightarrow> phones_accepted d"
      using st' by auto
    then have "phones_accepted (fst (run_ops today dump load st' xs))" by (rule Cons.IH)
    with Inr show ?thesis by simp
  qed
qed

text \<open>
  Claim C6, as the code has it. Start from a store in which every phone holds \<^verbatim>\<open>None\<close>
  or a string that the pattern of the setter matches (the empty store is one), with files
  that unpickle, if at all, to such stores, and a pickle library that gives back what it
  was given. After every sequence of calls (the branch \<^verbatim>\<open>add\<close>, \<^verbatim>\<open>add_phone\<close>,
  \<^verbatim>\<open>edit_phone\<close>, \<^verbatim>\<open>delete_phone\<close>, \<^verbatim>\<open>edit_contact\<close>, \<^verbatim>\<open>delete_contact\<close>, saving and
  loading), with strings or \<^verbatim>\<open>None\<close> for the phones and whether the calls succeed or
  raise, every phone of every contact still holds \<^verbatim>\<open>None\<close> or such a string.
\<close>

theorem phones_always_accepted:
  assumes "\<And>d. load (dump d) = Inr d"
    and "\<And>f c d. fs f = Some c \<Longrightarrow> load c = Inr d \<Longrightarrow> phones_accepted d"
    and "phones_accepted ab"
  shows "phones_accepted (fst (run_ops today dump load (ab, fs) ops))"
  using run_ops_accepted[of load dump "(ab, fs)" today ops] assms by auto

text \<open>
  The theorem of C6 on a run from the empty store and the empty file system, in which
  two calls are refused and one adds the phone \<^verbatim>\<open>None\<close>.
\<close>

theorem phones_always_accepted_witness:
  "(\<forall>d. example_load (example_dump d) = Inr d) \<and>
   phones_accepted AddressBook_init \<and>
   phones_accepted (fst (run_ops \<lparr>year = 2026, month = 3, day = 1\<rparr> example_dump example_load
     (AddressBook_init, Map.empty)
     [Add [lit ''Alice'', lit ''+380501234567'', lit ''15062020''],
      Add [lit ''Bob'', lit ''0501234567''],
      AddPhone (lit ''Alice'') (Some (lit ''380671234567'')), Save ''address_book.pkl'',
      DeleteContact (lit ''Alice''), Load ''address_book.pkl'',
      EditPhone (lit ''Alice'') (- 1) (Some (lit ''+380991112233'')),
      DeletePhone (lit ''Alice'') 0, AddPhone (lit ''Alice'') None,
      EditContact (lit ''Alice'') (Some (lit ''12345''))])) \<and>
   fst (run_ops \<lparr>year = 2026, month = 3, day = 1\<rparr> example_dump example_load
     (AddressBook_init, Map.empty)
     [Add [lit ''Alice'', lit ''+380501234567'', lit ''15062020''],
      Add [lit ''Bob'', lit ''0501234567''],
      AddPhone (lit ''Alice'') (Some (lit ''380671234567'')), Save ''address_book.pkl'',
      DeleteContact (lit ''Alice''), Load ''address_book.pkl'',
      EditPhone (lit ''Alice'') (- 1) (Some (lit ''+380991112233'')),
      DeletePhone (lit ''Alice'') 0, AddPhone (lit ''Alice'') None,
      EditContact (lit ''Alice'') (Some (lit ''12345''))]) =
     [(lit ''Alice'', alice\<lparr>phones := [Phone (Some (lit ''+380991112233'')), Phone None]\<rparr>)]"
proof -
  have a: "\<And>d. example_load (example_dump d) = Inr d"
    by simp
  have b: "\<And>f c d. (Map.empty :: string \<rightharpoonup> AddressBook option) f = Some c \<Longrightarrow>
      example_load c = Inr d \<Longrightarrow> phones_accepted d"
    by simp
  have c: "phones_accepted AddressBook_init"
    by (simp add: phones_accepted_def AddressBook_init_def)
  have d: "fst (run_ops \<lparr>year = 2026, month = 3, day = 1\<rparr> example_dump example_load
     (AddressBook_init, Map.empty)
     [Add [lit ''Alice'', lit ''+380501234567'', lit ''15062020''],
      Add [lit ''Bob'', lit ''0501234567''],
      AddPhone (lit ''Alice'') (Some (lit ''380671234567'')), Save ''address_book.pkl'',
      DeleteContact (lit ''Alice''), Load ''address_book.pkl'',
      EditPhone (lit ''Alice'') (- 1) (Some (lit ''+380991112233'')),
      DeletePhone (lit ''Alice'') 0, AddPhone (lit ''Alice'') None,
      EditContact (lit ''Alice'') (Some (lit ''12345''))]) =
     [(lit ''Alice'', alice\<lparr>phones := [Phone (Some (lit ''+380991112233'')), Phone None]\<rparr>)]"
    by code_simp
  from a c d
    phones_always_accepted [of example_load example_dump Map.empty AddressBook_init, OF a b c]
  show ?thesis by blast
qed

text \<open>
  Claim C6 as stated fails: \<^verbatim>\<open>add_phone(None)\<close> goes through the setter and leaves in the
  list of Alice a phone that holds \<^verbatim>\<open>None\<close>, which is no string of the format.
\<close>

theorem add_phone_None_not_validated:
  "fst (run_ops \<lparr>year = 2026, month = 3, day = 1\<rparr> example_dump example_load
     (AddressBook_init, Map.empty)
     [Add [lit ''Alice'', lit ''+380501234567'', lit ''15062020''],
      AddPhone (lit ''Alice'') None]) =
     [(lit ''Alice'', alice\<lparr>phones := [Phone (Some (lit ''+380501234567'')), Phone None]\<rparr>)] \<and>
   \<not> phones_validated
     [(lit ''Alice'', alice\<lparr>phones := [Phone (Some (lit ''+380501234567'')), Phone None]\<rparr>)]"
  by code_simp

subsection \<open>Editing a phone\<close>

lemma keyed_by_name_lookup:
  "keyed_by_name ab \<Longrightarrow> map_of ab n = Some r \<Longrightarrow> name r = n"
  by (auto simp: keyed_by_name_def list_all_iff dest: map_of_SomeD)

lemma update_present_keys:
  "map_of ab n = Some r \<Longrightarrow> map fst (AList.update n r' ab) = map fst ab"
  by (simp add: update_keys map_of_eq_None_iff[symmetric] del: map_of_eq_None_iff)

lemma edit_phone_name: "edit_phone r i v = Inr r' \<Longrightarrow> name r' = name r"
  by (auto simp: edit_phone_def split: sum.splits option.splits)

lemma edit_contact_on_record:
  assumes "keyed_by_name ab"
  shows "edit_contact ab n v = on_record ab n (\<lambda>r. edit_phone r 0 v)"
proof (cases "map_of ab n")
  case None
  then show ?thesis by (simp add: edit_contact_def on_record_def)
next
  case (Some r)
  show ?thesis
  proof (cases "edit_phone r 0 v")
    case (Inl e)
    with Some show ?thesis by (simp add: edit_contact_def on_record_def)
  next
    case (Inr r')
    from assms Some have "name r = n" by (rule keyed_by_name_lookup)
    with Inr have "name r' = n" by (simp add: edit_phone_name)
    with Some Inr show ?thesis by (simp add: edit_contact_def on_record_def add_contact_def)
  qed
qed

lemma add_contact_keyed_by_name: "keyed_by_name ab \<Longrightarrow> keyed_by_name (add_contact ab r)"
  unfolding keyed_by_name_def add_contact_def list_all_iff
  using set_AList_update[of "name r" r ab] by auto

text \<open>
  Claim C10. In a store where every record lies under its own name, take a name that is
  present, an index that is valid for its list of phones and a string that the setter
  accepts. Then \<^verbatim>\<open>edit_phone\<close> on that record succeeds, as does \<^verbatim>\<open>edit_contact\<close> (which is
  the case of index 0), and in the store that results the record has the new phone at
  that index, its name, its birthday and its other phones as before, every other name
  leads to what it led to, and the names are in the same order.
\<close>

theorem edit_phone_changes_one_phone:
  assumes "keyed_by_name ab" and "map_of ab n = Some r"
    and "list_index (phones r) i = Some j" and "phone_re_match s"
  shows "\<exists>ab' r'. on_record ab n (\<lambda>r. edit_phone r i (Some s)) = Inr ab' \<and>
           (i = 0 \<longrightarrow> edit_contact ab n (Some s) = Inr ab') \<and>
           map_of ab' n = Some r' \<and>
           name r' = name r \<and> birthday r' = birthday r \<and>
           length (phones r') = length (phones r) \<and>
           phones r' ! j = Phone (Some s) \<and>
           (\<forall>k. k \<noteq> j \<longrightarrow> phones r' ! k = phones r ! k) \<and>
           (\<forall>m. m \<noteq> n \<longrightarrow> map_of ab' m = map_of ab m) \<and>
           map fst ab' = map fst ab"
proof -
  define r' where "r' = r\<lparr>phones := (phones r)[j := Phone (Some s)]\<rparr>"
  define ab' where "ab' = AList.update n r' ab"
  from assms(3) have j: "j < length (phones r)"
    by (auto simp: list_index_def split: if_splits)
  from assms(3,4) have e: "edit_phone r i (Some s) = Inr r'"
    by (simp add: edit_phone_def Phone_init_def r'_def)
  with assms(2) have o: "on_record ab n (\<lambda>r. edit_phone r i (Some s)) = Inr ab'"
    by (simp add: on_record_def ab'_def)
  with assms(1) have c: "i = 0 \<longrightarrow> edit_contact ab n (Some s) = Inr ab'"
    by (auto simp: edit_contact_on_record)
  have "map_of ab' n = Some r'" "\<forall>m. m \<noteq> n \<longrightarrow> map_of ab' m = map_of ab m"
    by (simp_all add: ab'_def update_conv')
  moreover from assms(2) have "map fst ab' = map fst ab"
    unfolding ab'_def by (rule update_present_keys)
  moreover from j have "name r' = name r" "birthday r' = birthday r"
    "length (phones r') = length (phones r)" "phones r' ! j = Phone (Some s)"
    "\<forall>k. k \<noteq> j \<longrightarrow> phones r' ! k = phones r ! k"
    by (simp_all add: r'_def)
  ultimately show ?thesis using o c by blast
qed

text \<open>The theorem of C10 on the first phone of Bob, in a store that holds Alice as well.\<close>

theorem edit_phone_changes_one_phone_witness:
  "keyed_by_name [(lit ''Bob'', bob), (lit ''Alice'', alice)] \<and>
   map_of [(lit ''Bob'', bob), (lit ''Alice'', alice)] (lit ''Bob'') = Some bob \<and>
   list_index (phones bob) 0 = Some 0 \<and>
   phone_re_match (lit ''+380991112233'') \<and>
   edit_contact [(lit ''Bob'', bob), (lit ''Alice'', alice)] (lit ''Bob'')
       (Some (lit ''+380991112233'')) =
     Inr [(lit ''Bob'', bob\<lparr>phones := [Phone (Some (lit ''+380991112233'')),
                                       Phone (Some (lit ''380501234567''))]\<rparr>),
          (lit ''Alice'', alice)] \<and>
   (\<exists>ab'. edit_contact [(lit ''Bob'', bob), (lit ''Alice'', alice)] (lit ''Bob'')
            (Some (lit ''+380991112233'')) = Inr ab' \<and>
      map_of ab' (lit ''Alice'') = Some alice \<and> map fst ab' = [lit ''Bob'', lit ''Alice''])"
proof -
  have a: "keyed_by_name [(lit ''Bob'', bob), (lit ''Alice'', alice)]"
    by (simp add: keyed_by_name_def)
  have b: "map_of [(lit ''Bob'', bob), (lit ''Alice'', alice)] (lit ''Bob'') = Some bob"
    by simp
  have c: "list_index (phones bob) 0 = Some 0"
    by (simp add: list_index_def)
  have d: "phone_re_match (lit ''+380991112233'')"
    by code_simp
  have e: "edit_contact [(lit ''Bob'', bob), (lit ''Alice'', alice)] (lit ''Bob'')
       (Some (lit ''+380991112233'')) =
     Inr [(lit ''Bob'', bob\<lparr>phones := [Phone (Some (lit ''+380991112233'')),
                                       Phone (Some (lit ''380501234567''))]\<rparr>),
          (lit ''Alice'', alice)]"
    by code_simp
  have f: "lit ''Alice'' \<noteq> lit ''Bob''"
    by code_simp
  from edit_phone_changes_one_phone [OF a b c d] f
  have "\<exists>ab'. edit_contact [(lit ''Bob'', bob), (lit ''Alice'', alice)] (lit ''Bob'')
            (Some (lit ''+380991112233'')) = Inr ab' \<and>
      map_of ab' (lit ''Alice'') = Some alice \<and> map fst ab' = [lit ''Bob'', lit ''Alice'']"
    by fastforce
  with a b c d e show ?thesis by blast
qed

subsection \<open>Days to the birthday\<close>

lemma days_to_birthday_no_birthday:
  "birthday r = None \<Longrightarrow> days_to_birthday today r = Inr None"
  by (simp add: days_to_birthday_def)

text \<open>
  Claim C7, at an input where the code departs from it. On 3 November 2026 the setter
  stores the birthday \<^verbatim>\<open>29022028\<close> as 29 February 2028, a date of the calendar. On the
  same day \<^verbatim>\<open>days_to_birthday\<close> builds 29 February of the current year 2026, which does
  not exist, and raises \<^verbatim>\<open>ValueError\<close> where the claim asks for a number of days.
\<close>

theorem days_to_birthday_leap_day:
  "Birthday_init \<lparr>year = 2026, month = 11, day = 3\<rparr> (Some (lit ''29022028'')) =
     Inr (Birthday (Some \<lparr>year = 2028, month = 2, day = 29\<rparr>)) \<and>
   valid_date \<lparr>year = 2028, month = 2, day = 29\<rparr> \<and>
   days_to_birthday \<lparr>year = 2026, month = 11, day = 3\<rparr>
     \<lparr>name = lit ''Alice'', phones = [Phone (Some (lit ''+380501234567''))],
      birthday = Some (Birthday (Some \<lparr>year = 2028, month = 2, day = 29\<rparr>))\<rparr> =
     Inl ValueError"
  by code_simp

text \<open>
  Claim C8, at an input where the code departs from it. The branch \<^verbatim>\<open>add\<close> without a
  birthday stores a \<^verbatim>\<open>Birthday\<close> object whose setter assigned nothing, not \<^verbatim>\<open>None\<close>.
  The test of \<^verbatim>\<open>days_to_birthday\<close> then reads the property \<^verbatim>\<open>value\<close> of that object and
  raises \<^verbatim>\<open>AttributeError\<close> where the claim asks for the result \<^verbatim>\<open>None\<close>.
\<close>

theorem days_to_birthday_after_add_without_birthday:
  "command_add \<lparr>year = 2026, month = 3, day = 1\<rparr> AddressBook_init
      [lit ''Bob'', lit ''+380501234567''] =
     ([(lit ''Bob'', \<lparr>name = lit ''Bob'', phones = [Phone (Some (lit ''+380501234567''))],
          birthday = Some (Birthday None)\<rparr>)], ''Contact added'') \<and>
   days_to_birthday \<lparr>year = 2026, month = 3, day = 1\<rparr>
     \<lparr>name = lit ''Bob'', phones = [Phone (Some (lit ''+380501234567''))],
      birthday = Some (Birthday None)\<rparr> = Inl AttributeError"
  by code_simp

subsection \<open>Where the count of days is right\<close>

text \<open>
  The two defects above apart, \<^verbatim>\<open>days_to_birthday\<close> counts as specified: a number it
  returns lies between 0 and 365, and it returns one for every stored birthday other than
  29 February.
\<close>

lemma month_cases:
  "1 \<le> (m::int) \<Longrightarrow> m \<le> 12 \<Longrightarrow>
   m = 1 \<or> m = 2 \<or> m = 3 \<or> m = 4 \<or> m = 5 \<or> m = 6 \<or> m = 7 \<or> m = 8 \<or> m = 9 \<or> m = 10 \<or> m = 11 \<or> m = 12"
  by arith

lemma days_before_month_values:
  "days_before_month y 1 = 0"
  "days_before_month y 2 = 31"
  "days_before_month y 3 = 59 + (if is_leap y then 1 else 0)"
  "days_before_month y 4 = 90 + (if is_leap y then 1 else 0)"
  "days_before_month y 5 = 120 + (if is_leap y then 1 else 0)"
  "days_before_month y 6 = 151 + (if is_leap y then 1 else 0)"
  "days_before_month y 7 = 181 + (if is_leap y then 1 else 0)"
  "days_before_month y 8 = 212 + (if is_leap y then 1 else 0)"
  "days_before_month y 9 = 243 + (if is_leap y then 1 else 0)"
  "days_before_month y 10 = 273 + (if is_leap y then 1 else 0)"
  "days_before_month y 11 = 304 + (if is_leap y then 1 else 0)"
  "days_before_month y 12 = 334 + (if is_leap y then 1 else 0)"
  by (simp_all add: days_before_month_def)

lemma days_in_month_values:
  "days_in_month y 1 = 31"
  "days_in_month y 2 = (if is_leap y then 29 else 28)"
  "days_in_month y 3 = 31"
  "days_in_month y 4 = 30"
  "days_in_month y 5 = 31"
  "days_in_month y 6 = 30"
  "days_in_month y 7 = 31"
  "days_in_month y 8 = 31"
  "days_in_month y 9 = 30"
  "days_in_month y 10 = 31"
  "days_in_month y 11 = 30"
  "days_in_month y 12 = 31"
  by (simp_all add: days_in_month_def)

text \<open>The day of the year, between 1 and the length of the year.\<close>

lemma day_of_year_bounds:
  assumes "1 \<le> m" "m \<le> 12" "1 \<le> d" "d \<le> days_in_month y m"
  shows "1 \<le> days_before_month y m + d"
    and "days_before_month y m + d \<le> (if is_leap y then 366 else 365)"
  using month_cases[OF assms(1,2)] assms(3,4)
  by (auto simp: days_before_month_values days_in_month_values split: if_splits)

lemma month_end_before_next:
  assumes "1 \<le> m1" "m1 < m2" "m2 \<le> 12"
  shows "days_before_month y m1 + days_in_month y m1 \<le> days_before_month y m2"
proof -
  from assms have a: "1 \<le> m1" "m1 \<le> 12" and b: "1 \<le> m2" "m2 \<le> 12" by auto
  from month_cases[OF a] month_cases[OF b] assms(2) show ?thesis
    by (elim disjE) (simp_all add: days_before_month_values days_in_month_values)
qed

lemma div_step:
  assumes "0 < (k::int)"
  shows "y div k = (y - 1) div k + (if y mod k = 0 then 1 else 0)"
proof (cases "y mod k = 0")
  case True
  have "y = k * (y div k) + y mod k" by simp
  with True have "y - 1 = k * (y div k - 1) + (k - 1)" by (simp add: algebra_simps)
  moreover from assms have "0 \<le> k - 1" "k - 1 < k" by simp_all
  ultimately have "(y - 1) div k = y div k - 1" by (rule int_div_pos_eq)
  with True show ?thesis by simp
next
  case False
  from assms have "0 \<le> y mod k" "y mod k < k" by simp_all
  with False have "0 \<le> y mod k - 1" "y mod k - 1 < k" by simp_all
  moreover have "y - 1 = k * (y div k) + (y mod k - 1)" by simp
  ultimately have "(y - 1) div k = y div k" using int_div_pos_eq by blast
  with False show ?thesis by simp
qed

lemma mod_100_4: "(y::int) mod 100 = 0 \<Longrightarrow> y mod 4 = 0"
proof -
  assume "y mod 100 = 0"
  then have "100 dvd y" by (simp add: mod_eq_0_iff_dvd)
  moreover have "(4::int) dvd 100" by simp
  ultimately have "4 dvd y" using dvd_trans by blast
  then show "y mod 4 = 0" by (simp add: mod_eq_0_iff_dvd)
qed

lemma mod_400_100: "(y::int) mod 400 = 0 \<Longrightarrow> y mod 100 = 0"
proof -
  assume "y mod 400 = 0"
  then have "400 dvd y" by (simp add: mod_eq_0_iff_dvd)
  moreover have "(100::int) dvd 400" by simp
  ultimately have "100 dvd y" using dvd_trans by blast
  then show "y mod 100 = 0" by (simp add: mod_eq_0_iff_dvd)
qed

lemma days_before_year_step:
  "days_before_year (y + 1) = days_before_year y + (if is_leap y then 366 else 365)"
proof -
  define a where "a = (y - 1) div 4"
  define b where "b = (y - 1) div 100"
  define c where "c = (y - 1) div 400"
  have d4: "y div 4 = a + (if y mod 4 = 0 then 1 else 0)"
    unfolding a_def by (rule div_step) simp
  have d100: "y div 100 = b + (if y mod 100 = 0 then 1 else 0)"
    unfolding b_def by (rule div_step) simp
  have d400: "y div 400 = c + (if y mod 400 = 0 then 1 else 0)"
    unfolding c_def by (rule div_step) simp
  have e: "days_before_year (y + 1) = y * 365 + y div 4 - y div 100 + y div 400"
    by (simp add: days_before_year_def)
  have f: "days_before_year y = (y - 1) * 365 + a - b + c"
    by (simp add: days_before_year_def Let_def a_def b_def c_def)
  consider (n4) "y mod 4 \<noteq> 0" | (n100) "y mod 4 = 0" "y mod 100 \<noteq> 0"
    | (n400) "y mod 4 = 0" "y mod 100 = 0" "y mod 400 \<noteq> 0" | (y400) "y mod 400 = 0"
    by argo
  then show ?thesis
  proof cases
    case n4
    then have "y mod 100 \<noteq> 0" "y mod 400 \<noteq> 0"
      by (auto dest: mod_100_4 mod_400_100)
    with n4 have "y div 4 = a" "y div 100 = b" "y div 400 = c" "\<not> is_leap y"
      using d4 d100 d400 by (simp_all add: is_leap_def)
    then show ?thesis unfolding e f by (simp add: algebra_simps)
  next
    case n100
    then have "y mod 400 \<noteq> 0"
      by (auto dest: mod_400_100)
    with n100 have "y div 4 = a + 1" "y div 100 = b" "y div 400 = c" "is_leap y"
      using d4 d100 d400 by (simp_all add: is_leap_def)
    then show ?thesis unfolding e f by (simp add: algebra_simps)
  next
    case n400
    then have "y div 4 = a + 1" "y div 100 = b + 1" "y div 400 = c" "\<not> is_leap y"
      using d4 d100 d400 by (simp_all add: is_leap_def)
    then show ?thesis unfolding e f by (simp add: algebra_simps)
  next
    case y400
    then have "y mod 100 = 0" "y mod 4 = 0"
      by (auto dest: mod_100_4 mod_400_100)
    with y400 have "y div 4 = a + 1" "y div 100 = b + 1" "y div 400 = c + 1" "is_leap y"
      using d4 d100 d400 by (simp_all add: is_leap_def)
    then show ?thesis unfolding e f by (simp add: algebra_simps)
  qed
qed

lemma not_two_leap_years: "is_leap y \<Longrightarrow> \<not> is_leap (y + 1)"
proof -
  assume "is_leap y"
  then have "y mod 4 = 0" by (simp add: is_leap_def)
  moreover have "(y + 1) mod 4 = (y mod 4 + 1 mod 4) mod 4" by (simp only: mod_add_eq)
  ultimately have "(y + 1) mod 4 = 1" by simp
  then show "\<not> is_leap (y + 1)" by (simp add: is_leap_def)
qed

lemma date_new_Inr:
  "date_new y m d = Inr dt \<Longrightarrow>
     1 \<le> y \<and> y \<le> 9999 \<and> 1 \<le> m \<and> m \<le> 12 \<and> 1 \<le> d \<and> d \<le> days_in_month y m \<and>
     dt = \<lparr>year = y, month = m, day = d\<rparr>"
  by (auto simp: date_new_def split: if_splits)

lemma day_of_year_less:
  assumes "1 \<le> m1" "m1 \<le> 12" "1 \<le> d1" "d1 \<le> days_in_month y m1"
    and "1 \<le> m2" "m2 \<le> 12" "1 \<le> d2" "d2 \<le> days_in_month y m2"
    and "m1 < m2 \<or> (m1 = m2 \<and> d1 < d2)"
  shows "days_before_month y m1 + d1 < days_before_month y m2 + d2"
proof (cases "m1 < m2")
  case True
  with assms have "days_before_month y m1 + days_in_month y m1 \<le> days_before_month y m2"
    by (intro month_end_before_next) auto
  with assms show ?thesis by linarith
next
  case False
  with assms show ?thesis by auto
qed

lemma days_before_month_other_year:
  "days_before_month y' m \<le> days_before_month y m + 1"
  "\<not> is_leap y' \<Longrightarrow> days_before_month y' m \<le> days_before_month y m"
  by (simp_all add: days_before_month_def)

lemma days_in_month_any_year:
  assumes "1 \<le> m" "m \<le> 12" "d \<le> days_in_month y m" "\<not> (m = 2 \<and> d = 29)"
  shows "d \<le> days_in_month y' m"
  using month_cases[OF assms(1,2)] assms(3,4)
  by (auto simp: days_in_month_values split: if_splits)

lemma days_to_birthday_bounds:
  assumes today: "valid_date today"
    and res: "days_to_birthday today r = Inr (Some d)"
  shows "0 \<le> d \<and> d < 366"
proof -
  define Y where "Y = year today"
  from today have t: "1 \<le> month today" "month today \<le> 12" "1 \<le> day today"
    "day today \<le> days_in_month Y (month today)"
    by (simp_all add: valid_date_def Y_def)
  define L :: int where "L = (if is_leap Y then 366 else 365)"
  define T where "T = days_before_month Y (month today) + day today"
  from day_of_year_bounds[OF t] have T: "1 \<le> T" "T \<le> L" by (simp_all add: T_def L_def)
  have ot: "toordinal today = days_before_year Y + T"
    by (simp add: toordinal_def T_def Y_def)
  from res obtain b bd nb where b: "birthday r = Some b" and bd: "Birthday_value b = Inr bd"
    and nb: "date_new Y (month bd) (day bd) = Inr nb"
    by (auto simp: days_to_birthday_def Y_def split: option.splits sum.splits)
  define m where "m = month bd"
  define dd where "dd = day bd"
  from date_new_Inr[OF nb] have v: "1 \<le> m" "m \<le> 12" "1 \<le> dd" "dd \<le> days_in_month Y m"
    and nb_eq: "nb = \<lparr>year = Y, month = m, day = dd\<rparr>"
    by (simp_all add: m_def dd_def)
  define B where "B = days_before_month Y m + dd"
  from day_of_year_bounds[OF v] have B: "1 \<le> B" "B \<le> L" by (simp_all add: B_def L_def)
  have onb: "toordinal nb = days_before_year Y + B"
    by (simp add: toordinal_def nb_eq B_def)
  show ?thesis
  proof (cases "date_lt nb today")
    case False
    with res b bd nb have d: "d = date_sub_days nb today"
      by (simp add: days_to_birthday_def Y_def)
    from False have "\<not> (m < month today \<or> (m = month today \<and> dd < day today))"
      by (simp add: date_lt_def nb_eq Y_def)
    then have "month today < m \<or> (month today = m \<and> day today < dd) \<or>
        (month today = m \<and> day today = dd)" by linarith
    then have "T \<le> B"
      using day_of_year_less[OF t v] unfolding T_def B_def by auto
    with T B d ot onb show ?thesis
      by (simp add: date_sub_days_def L_def split: if_splits)
  next
    case True
    with res b bd nb obtain nb' where nb': "date_new (Y + 1) m dd = Inr nb'"
      and d: "d = date_sub_days nb' today"
      by (auto simp: days_to_birthday_def Y_def m_def dd_def split: sum.splits)
    from date_new_Inr[OF nb'] have v': "1 \<le> dd" "dd \<le> days_in_month (Y + 1) m"
      and nb'_eq: "nb' = \<lparr>year = Y + 1, month = m, day = dd\<rparr>" by simp_all
    define B' where "B' = days_before_month (Y + 1) m + dd"
    from day_of_year_bounds(1)[OF v(1,2) v'] have B': "1 \<le> B'" by (simp add: B'_def)
    have onb': "toordinal nb' = days_before_year Y + L + B'"
      by (simp add: toordinal_def nb'_eq B'_def days_before_year_step L_def)
    from True have "m < month today \<or> (m = month today \<and> dd < day today)"
      by (simp add: date_lt_def nb_eq Y_def)
    with day_of_year_less[OF v t] have BT: "B < T" by (simp add: B_def T_def)
    have "B' \<le> B + 1" "is_leap Y \<Longrightarrow> B' \<le> B"
      using days_before_month_other_year[of "Y + 1" m Y] not_two_leap_years[of Y]
      by (simp_all add: B'_def B_def)
    then have "L + B' \<le> B + 366"
      by (cases "is_leap Y") (simp_all add: L_def)
    with BT T B' d ot onb' show ?thesis
      by (simp add: date_sub_days_def)
  qed
qed

lemma days_to_birthday_returns:
  assumes "valid_date today" and "year today < 9999"
    and "birthday r = Some (Birthday (Some bd))" and "valid_date bd"
    and "\<not> (month bd = 2 \<and> day bd = 29)"
  shows "\<exists>d. days_to_birthday today r = Inr (Some d)"
proof -
  from assms(4) have m: "1 \<le> month bd" "month bd \<le> 12" and d: "1 \<le> day bd"
    and dim: "day bd \<le> days_in_month (year bd) (month bd)"
    by (simp_all add: valid_date_def)
  from days_in_month_any_year[OF m dim assms(5)]
  have "day bd \<le> days_in_month (year today) (month bd)"
    "day bd \<le> days_in_month (year today + 1) (month bd)" by simp_all
  moreover from assms(1,2) have "1 \<le> year today" "year today + 1 \<le> 9999"
    by (simp_all add: valid_date_def)
  ultimately have "\<exists>a. date_new (year today) (month bd) (day bd) = Inr a"
    "\<exists>a. date_new (year today + 1) (month bd) (day bd) = Inr a"
    using m d by (simp_all add: date_new_def)
  with assms(3) show ?thesis
    by (auto simp: days_to_birthday_def Birthday_value_def)
qed

subsection \<open>Where the search is right, and what the setter stores\<close>

lemma search_phones_Inr: "search_phones q ps = Inr b \<Longrightarrow> ps = [] \<and> \<not> b"
  by (cases ps) (auto simp: phone_number_def)

text \<open>
  The search goes through exactly when every record matches by its name or has no phone,
  and then it returns, in the order of the store, the records that match by name.
\<close>

lemma search_loop_result:
  "search_loop q rs acc =
     (if \<forall>r \<in> set rs. contains (lower (name r)) q \<or> phones r = []
      then Inr (acc @ filter (\<lambda>r. contains (lower (name r)) q) rs)
      else Inl AttributeError)"
proof (induction rs arbitrary: acc)
  case Nil
  then show ?case by simp
next
  case (Cons r rs)
  show ?case
  proof (cases "contains (lower (name r)) q")
    case True
    then show ?thesis by (simp add: Cons.IH)
  next
    case False
    show ?thesis
    proof (cases "phones r")
      case Nil
      with False show ?thesis by (simp add: Cons.IH)
    next
      case (Cons p ps)
      with False show ?thesis by (simp add: phone_number_def)
    qed
  qed
qed

lemma search_result:
  "search ab query =
     (if \<forall>r \<in> set (map snd ab). contains (lower (name r)) (lower query) \<or> phones r = []
      then Inr (filter (\<lambda>r. contains (lower (name r)) (lower query)) (map snd ab))
      else Inl AttributeError)"
  unfolding search_def by (simp only: search_loop_result append_Nil)

lemma strptime_empty: "strptime [] = Inl ValueError"
  by code_simp

text \<open>
  A birthday whose year lies before the current year is stored with the next year,
  whether or not its day has passed this year.
\<close>

lemma Birthday_init_past_year:
  assumes "strptime s = Inr parsed" and "year parsed < year today"
    and "Birthday_init today (Some s) = Inr b"
  shows "b = Birthday (Some \<lparr>year = year today + 1, month = month parsed, day = day parsed\<rparr>)"
proof -
  from assms(1) have "s \<noteq> []" using strptime_empty by auto
  moreover from assms(2) have "date_lt parsed today" by (simp add: date_lt_def)
  ultimately obtain bumped where "date_new (year today + 1) (month parsed) (day parsed) = Inr bumped"
    and "b = Birthday (Some bumped)"
    using assms(1,3) by (auto simp: Birthday_init_def date_replace_year_def split: sum.splits)
  then show ?thesis by (auto simp: date_new_def split: if_splits)
qed

end
